theory Spec2Isabelle
  imports Main
begin

section \<open>The API service registration controller\<close>

text \<open>
  A shallow embedding of \<^verbatim>\<open>apiservice_controller.go\<close> (package \<^verbatim>\<open>apiserver\<close> of
  kube-aggregator). The controller talks to four collaborators that it only knows through
  their interfaces: the two listers (read-only caches), the handler manager and the work
  queue. A lister is a function handed to the model; every call on the handler manager,
  on the queue and on the logger is appended, in program order, to a trace of effects
  that the functions pass along.
\<close>

subsection \<open>Data model\<close>

text \<open>\<^verbatim>\<open>apiService.Spec.Service\<close>: a pointer to a service reference, \<^verbatim>\<open>nil\<close> is \<open>None\<close>.\<close>

record ServiceReference =
  ref_Namespace :: string
  ref_Name :: string

datatype APIServiceConditionType = Available

text \<open>
  Modelled from the spec: the declaration of \<^verbatim>\<open>apiregistration.APIService\<close> is not in the
  source file. It has a unique name, an optional service reference and, per condition type,
  a boolean-valued condition that is read only.
\<close>

record APIService =
  Name :: string
  Spec_Service :: "ServiceReference option"
  Status_Available :: bool

text \<open>
  Modelled from the spec: \<^verbatim>\<open>apiregistration.IsAPIServiceConditionTrue\<close> is not in the
  source file; it reads the boolean-valued condition of the registration.
\<close>

fun IsAPIServiceConditionTrue :: "APIService \<Rightarrow> APIServiceConditionType \<Rightarrow> bool" where
  "IsAPIServiceConditionTrue apiService Available = Status_Available apiService"

text \<open>
  Modelled from the spec: the service types of \<^verbatim>\<open>pkg/api\<close> are not in the source file:
  cluster-internal, node-port, load-balancer, or any other.
\<close>

datatype ServiceType =
    ServiceTypeClusterIP
  | ServiceTypeNodePort
  | ServiceTypeLoadBalancer
  | ServiceTypeOther string

record Service =
  svc_Namespace :: string
  svc_Name :: string
  Spec_Type :: ServiceType
  Spec_ClusterIP :: string

text \<open>
  Go's \<^verbatim>\<open>error\<close> values, as far as the controller tells them apart.
  Modelled from the spec: \<^verbatim>\<open>apierrors.IsNotFound\<close> is not in the source file; it
  singles out the not-found error of a cache lookup.
\<close>

datatype error = NotFoundError | OtherError string

fun IsNotFound :: "error \<Rightarrow> bool" where
  "IsNotFound NotFoundError = True"
| "IsNotFound (OtherError _) = False"

text \<open>
  The dynamic type of an \<^verbatim>\<open>interface{}\<close> handed to an event handler: a registration, a
  backing service, the tombstone \<^verbatim>\<open>cache.DeletedFinalStateUnknown{Key, Obj}\<close>, or a value
  of any other type. The watch sources deliver objects, so a typed \<^verbatim>\<open>nil\<close> pointer is
  not among the payloads.
\<close>

datatype obj =
    ObjAPIService APIService
  | ObjService Service
  | DeletedFinalStateUnknown string obj
  | ObjOther string

datatype logarg = ArgObj obj | ArgString string | ArgError error

text \<open>One call on a collaborator. The trace of a run lists them oldest first.\<close>

datatype effect =
    AddAPIService APIService string
  | RemoveAPIService string
  | QueueGet
  | QueueAdd string
  | QueueDone string
  | QueueForget string
  | QueueAddRateLimited string
  | GlogErrorf string "logarg list"
  | GlogV4Infof string "logarg list"
  | HandleError string "logarg list"

text \<open>
  The fields of the controller that are read-only caches. \<^verbatim>\<open>apiServiceLister.Get(key)\<close>
  and \<^verbatim>\<open>serviceLister.Services(ns).Get(name)\<close> return an object or an error;
  \<^verbatim>\<open>apiServiceLister.List(labels.Everything())\<close> returns a list and an error.
\<close>

record APIServiceRegistrationController =
  apiServiceLister_Get :: "string \<Rightarrow> error + APIService"
  apiServiceLister_List :: "APIService list \<times> error option"
  serviceLister_Get :: "string \<Rightarrow> string \<Rightarrow> error + Service"

subsection \<open>Resolver\<close>

definition getDestinationHost :: "APIServiceRegistrationController \<Rightarrow> APIService \<Rightarrow> string" where
  "getDestinationHost c apiService =
     (case Spec_Service apiService of
        None \<Rightarrow> ''''
      | Some ref \<Rightarrow>
          (let destinationHost = ref_Name ref @ ''.'' @ ref_Namespace ref @ ''.svc'' in
           case serviceLister_Get c (ref_Namespace ref) (ref_Name ref) of
             Inl err \<Rightarrow> destinationHost
           | Inr service \<Rightarrow>
               if Spec_Type service = ServiceTypeClusterIP
                  \<or> Spec_Type service = ServiceTypeNodePort
                  \<or> Spec_Type service = ServiceTypeLoadBalancer
               then Spec_ClusterIP service
               else destinationHost))"

subsection \<open>Sync engine\<close>

text \<open>The result is the returned error (\<open>None\<close> is \<^verbatim>\<open>nil\<close>) and the trace.\<close>

definition sync ::
  "APIServiceRegistrationController \<Rightarrow> string \<Rightarrow> effect list \<Rightarrow> error option \<times> effect list" where
  "sync c key s =
     (case apiServiceLister_Get c key of
        Inl err \<Rightarrow>
          if IsNotFound err then (None, s @ [RemoveAPIService key])
          else (Some err, s)
      | Inr apiService \<Rightarrow>
          if \<not> IsAPIServiceConditionTrue apiService Available
          then (None, s @ [RemoveAPIService key])
          else (None, s @ [AddAPIService apiService (getDestinationHost c apiService)]))"

text \<open>
  A sequence of reconciliations, each against the cache as it is at that moment: the
  errors returned, in order, and the final trace.
\<close>

fun syncs ::
  "(APIServiceRegistrationController \<times> string) list \<Rightarrow> effect list
     \<Rightarrow> error option list \<times> effect list" where
  "syncs [] s = ([], s)"
| "syncs ((c, key) # rest) s =
     (case sync c key s of
        (err, s') \<Rightarrow> (case syncs rest s' of (errs, s'') \<Rightarrow> (err # errs, s'')))"

subsection \<open>Run loop\<close>

text \<open>
  One item off the queue. \<open>got\<close> is what \<^verbatim>\<open>c.queue.Get()\<close> returned (the queue only ever
  holds the string keys that the controller added) and \<open>syncFn\<close> is the injectable field
  of the controller. The deferred \<^verbatim>\<open>Done\<close> runs last on both paths behind the defer.
  When the queue is shutting down the function returns before the defer is registered.
\<close>

definition processNextWorkItem ::
  "(string \<Rightarrow> effect list \<Rightarrow> error option \<times> effect list) \<Rightarrow> string \<times> bool \<Rightarrow> effect list
     \<Rightarrow> bool \<times> effect list" where
  "processNextWorkItem syncFn got s =
     (case got of
        (key, quit) \<Rightarrow>
          (let s1 = s @ [QueueGet] in
           if quit then (False, s1)
           else
             (case syncFn key s1 of
                (None, s2) \<Rightarrow> (True, s2 @ [QueueForget key] @ [QueueDone key])
              | (Some err, s2) \<Rightarrow>
                  (True, s2 @ [HandleError ''%v failed with : %v'' [ArgString key, ArgError err]]
                            @ [QueueAddRateLimited key] @ [QueueDone key]))))"

subsection \<open>Event router\<close>

text \<open>
  Modelled from the spec: \<^verbatim>\<open>cache.DeletionHandlingMetaNamespaceKeyFunc\<close> is not in the
  source file; the queue key of a registration is its unique name.
\<close>

definition DeletionHandlingMetaNamespaceKeyFunc :: "APIService \<Rightarrow> error + string" where
  "DeletionHandlingMetaNamespaceKeyFunc obj = Inr (Name obj)"

definition enqueue :: "APIService \<Rightarrow> effect list \<Rightarrow> effect list" where
  "enqueue obj s =
     (case DeletionHandlingMetaNamespaceKeyFunc obj of
        Inl err \<Rightarrow>
          s @ [GlogErrorf ''Couldn't get key for object %#v: %v''
                 [ArgObj (ObjAPIService obj), ArgError err]]
      | Inr key \<Rightarrow> s @ [QueueAdd key])"

text \<open>
  The unchecked type assertion \<^verbatim>\<open>obj.(*apiregistration.APIService)\<close> panics on any other
  dynamic type: \<open>None\<close>.
\<close>

definition addAPIService :: "obj \<Rightarrow> effect list \<Rightarrow> effect list option" where
  "addAPIService obj s =
     (case obj of
        ObjAPIService castObj \<Rightarrow>
          Some (enqueue castObj (s @ [GlogV4Infof ''Adding %s'' [ArgString (Name castObj)]]))
      | _ \<Rightarrow> None)"

definition updateAPIService :: "obj \<Rightarrow> obj \<Rightarrow> effect list \<Rightarrow> effect list option" where
  "updateAPIService obj other s =
     (case obj of
        ObjAPIService castObj \<Rightarrow>
          Some (enqueue castObj (s @ [GlogV4Infof ''Updating %s'' [ArgString (Name castObj)]]))
      | _ \<Rightarrow> None)"

definition deleteAPIService :: "obj \<Rightarrow> effect list \<Rightarrow> effect list" where
  "deleteAPIService obj s =
     (case obj of
        ObjAPIService castObj \<Rightarrow>
          enqueue castObj (s @ [GlogV4Infof ''Deleting %q'' [ArgString (Name castObj)]])
      | DeletedFinalStateUnknown k inner \<Rightarrow>
          (case inner of
             ObjAPIService castObj \<Rightarrow>
               enqueue castObj (s @ [GlogV4Infof ''Deleting %q'' [ArgString (Name castObj)]])
           | _ \<Rightarrow>
               s @ [GlogErrorf ''Tombstone contained object that is not expected %#v''
                      [ArgObj obj]])
      | _ \<Rightarrow> s @ [GlogErrorf ''Couldn't get object from tombstone %#v'' [ArgObj obj]])"

text \<open>
  The loop of \<^verbatim>\<open>getAPIServicesFor\<close> over the listed registrations, \<open>ret\<close> being the slice
  built so far.
\<close>

fun getAPIServicesFor_loop :: "Service \<Rightarrow> APIService list \<Rightarrow> APIService list \<Rightarrow> APIService list" where
  "getAPIServicesFor_loop service [] ret = ret"
| "getAPIServicesFor_loop service (apiService # rest) ret =
     (case Spec_Service apiService of
        None \<Rightarrow> getAPIServicesFor_loop service rest ret
      | Some ref \<Rightarrow>
          if ref_Namespace ref = svc_Namespace service \<and> ref_Name ref = svc_Name service
          then getAPIServicesFor_loop service rest (ret @ [apiService])
          else getAPIServicesFor_loop service rest ret)"

text \<open>The error of \<^verbatim>\<open>List\<close> is dropped, as in the source.\<close>

definition getAPIServicesFor :: "APIServiceRegistrationController \<Rightarrow> Service \<Rightarrow> APIService list" where
  "getAPIServicesFor c service =
     (case apiServiceLister_List c of
        (apiServiceList, _) \<Rightarrow> getAPIServicesFor_loop service apiServiceList [])"

text \<open>\<^verbatim>\<open>for _, apiService := range ... { c.enqueue(apiService) }\<close>\<close>

fun enqueue_each :: "APIService list \<Rightarrow> effect list \<Rightarrow> effect list" where
  "enqueue_each [] s = s"
| "enqueue_each (apiService # rest) s = enqueue_each rest (enqueue apiService s)"

definition addService :: "APIServiceRegistrationController \<Rightarrow> obj \<Rightarrow> effect list \<Rightarrow> effect list option" where
  "addService c obj s =
     (case obj of
        ObjService service \<Rightarrow> Some (enqueue_each (getAPIServicesFor c service) s)
      | _ \<Rightarrow> None)"

definition updateService ::
  "APIServiceRegistrationController \<Rightarrow> obj \<Rightarrow> obj \<Rightarrow> effect list \<Rightarrow> effect list option" where
  "updateService c obj other s =
     (case obj of
        ObjService service \<Rightarrow> Some (enqueue_each (getAPIServicesFor c service) s)
      | _ \<Rightarrow> None)"

definition deleteService :: "APIServiceRegistrationController \<Rightarrow> obj \<Rightarrow> effect list \<Rightarrow> effect list" where
  "deleteService c obj s =
     (case obj of
        ObjService castObj \<Rightarrow> enqueue_each (getAPIServicesFor c castObj) s
      | DeletedFinalStateUnknown k inner \<Rightarrow>
          (case inner of
             ObjService castObj \<Rightarrow> enqueue_each (getAPIServicesFor c castObj) s
           | _ \<Rightarrow>
               s @ [GlogErrorf ''Tombstone contained object that is not expected %#v''
                      [ArgObj obj]])
      | _ \<Rightarrow> s @ [GlogErrorf ''Couldn't get object from tombstone %#v'' [ArgObj obj]])"

text \<open>
  A watch source delivers one of three notifications; the handlers are the ones
  registered in \<^verbatim>\<open>NewAPIServiceRegistrationController\<close>. An update carries two objects, of
  which the update handlers read the first and ignore the second.
\<close>

datatype notification = OnAdd obj | OnUpdate obj obj | OnDelete obj

fun serviceEvent ::
  "APIServiceRegistrationController \<Rightarrow> notification \<Rightarrow> effect list \<Rightarrow> effect list option" where
  "serviceEvent c (OnAdd obj) s = addService c obj s"
| "serviceEvent c (OnUpdate obj other) s = updateService c obj other s"
| "serviceEvent c (OnDelete obj) s = Some (deleteService c obj s)"

fun apiServiceEvent :: "notification \<Rightarrow> effect list \<Rightarrow> effect list option" where
  "apiServiceEvent (OnAdd obj) s = addAPIService obj s"
| "apiServiceEvent (OnUpdate obj other) s = updateAPIService obj other s"
| "apiServiceEvent (OnDelete obj) s = Some (deleteAPIService obj s)"

subsection \<open>The handler manager's set of registered endpoints\<close>

text \<open>
  Modelled from the spec: \<^verbatim>\<open>APIHandlerManager\<close> is an interface only, its implementation
  is not in the source file. \<^verbatim>\<open>AddAPIService\<close> installs or replaces the entry of the
  registration's name with the destination, \<^verbatim>\<open>RemoveAPIService\<close> removes the entry of the
  name it is given; no other call touches the set.
\<close>

fun HandlerManager_apply :: "effect \<Rightarrow> (string \<rightharpoonup> string) \<Rightarrow> (string \<rightharpoonup> string)" where
  "HandlerManager_apply (AddAPIService apiService destinationHost) m =
     m(Name apiService \<mapsto> destinationHost)"
| "HandlerManager_apply (RemoveAPIService apiServiceName) m = m(apiServiceName := None)"
| "HandlerManager_apply _ m = m"

text \<open>The set of registered endpoints after a trace, starting from the empty set.\<close>

definition registeredEndpoints :: "effect list \<Rightarrow> (string \<rightharpoonup> string)" where
  "registeredEndpoints s = fold HandlerManager_apply s Map.empty"

text \<open>
  The last reconciliation of key \<open>k\<close> in a sequence of reconciliations started on trace
  \<open>s\<close> that returned no error, if there is one: the cache it ran against.
\<close>

definition lastSuccessfulSync ::
  "string \<Rightarrow> (APIServiceRegistrationController \<times> string) list \<Rightarrow> effect list
     \<Rightarrow> APIServiceRegistrationController option" where
  "lastSuccessfulSync k steps s =
     map_option (\<lambda>((c, key), err). c)
       (find (\<lambda>((c, key), err). key = k \<and> err = None)
          (rev (zip steps (fst (syncs steps s)))))"

text \<open>
  A registration refers to a backing service when it has a service reference and both
  the namespace and the name of the reference are those of the service.
\<close>

definition refersTo :: "Service \<Rightarrow> APIService \<Rightarrow> bool" where
  "refersTo service apiService =
     (case Spec_Service apiService of
        None \<Rightarrow> False
      | Some ref \<Rightarrow>
          ref_Namespace ref = svc_Namespace service \<and> ref_Name ref = svc_Name service)"

subsection \<open>Example caches\<close>

text \<open>A cache holding the given registrations and services, looked up by their identity.\<close>

definition cacheOf :: "APIService list \<Rightarrow> Service list \<Rightarrow> APIServiceRegistrationController" where
  "cacheOf regs svcs =
     \<lparr> apiServiceLister_Get =
         (\<lambda>key. case find (\<lambda>a. Name a = key) regs of
                  None \<Rightarrow> Inl NotFoundError
                | Some a \<Rightarrow> Inr a),
       apiServiceLister_List = (regs, None),
       serviceLister_Get =
         (\<lambda>ns name. case find (\<lambda>v. svc_Namespace v = ns \<and> svc_Name v = name) svcs of
                      None \<Rightarrow> Inl NotFoundError
                    | Some v \<Rightarrow> Inr v) \<rparr>"

text \<open>A cache whose every lookup fails with an error that is not the not-found error.\<close>

definition failingCache :: APIServiceRegistrationController where
  "failingCache =
     \<lparr> apiServiceLister_Get = (\<lambda>key. Inl (OtherError ''timeout'')),
       apiServiceLister_List = ([], Some (OtherError ''timeout'')),
       serviceLister_Get = (\<lambda>ns name. Inl (OtherError ''timeout'')) \<rparr>"

definition R1 :: APIService where
  "R1 = \<lparr> Name = ''R1'',
          Spec_Service = Some \<lparr> ref_Namespace = ''ns1'', ref_Name = ''svcA'' \<rparr>,
          Status_Available = True \<rparr>"

definition R2 :: APIService where
  "R2 = \<lparr> Name = ''R2'',
          Spec_Service = Some \<lparr> ref_Namespace = ''ns1'', ref_Name = ''svcB'' \<rparr>,
          Status_Available = True \<rparr>"

definition R3 :: APIService where
  "R3 = \<lparr> Name = ''R3'', Spec_Service = None, Status_Available = True \<rparr>"

definition svcA :: Service where
  "svcA = \<lparr> svc_Namespace = ''ns1'', svc_Name = ''svcA'',
            Spec_Type = ServiceTypeLoadBalancer, Spec_ClusterIP = ''1.2.3.4'' \<rparr>"

subsection \<open>Auxiliary facts\<close>

lemma getAPIServicesFor_loop_eq:
  "getAPIServicesFor_loop service xs ret = ret @ filter (refersTo service) xs"
  by (induction xs arbitrary: ret) (auto simp: refersTo_def split: option.splits)

lemma enqueue_each_eq: "enqueue_each xs s = s @ map (\<lambda>a. QueueAdd (Name a)) xs"
  by (induction xs arbitrary: s) (auto simp: enqueue_def DeletionHandlingMetaNamespaceKeyFunc_def)

lemma registeredEndpoints_snoc:
  "registeredEndpoints (s @ [e]) = HandlerManager_apply e (registeredEndpoints s)"
  by (simp add: registeredEndpoints_def)

lemma syncs_Cons:
  "syncs ((c, key) # rest) s =
     (fst (sync c key s) # fst (syncs rest (snd (sync c key s))),
      snd (syncs rest (snd (sync c key s))))"
  by (simp split: prod.splits)

lemma find_app:
  "find P (xs @ ys) = (case find P xs of Some x \<Rightarrow> Some x | None \<Rightarrow> find P ys)"
  by (induction xs) auto

lemma lastSuccessfulSync_Nil: "lastSuccessfulSync k [] s = None"
  by (simp add: lastSuccessfulSync_def)

lemma lastSuccessfulSync_Cons:
  "lastSuccessfulSync k ((c, key) # rest) s =
     (case lastSuccessfulSync k rest (snd (sync c key s)) of
        Some c' \<Rightarrow> Some c'
      | None \<Rightarrow> if key = k \<and> fst (sync c key s) = None then Some c else None)"
  unfolding lastSuccessfulSync_def syncs_Cons
  by (auto simp: find_app split: option.splits)

lemma sync_other_key:
  assumes "\<forall>a. apiServiceLister_Get c key = Inr a \<longrightarrow> Name a = key" and "key \<noteq> k"
  shows "registeredEndpoints (snd (sync c key s)) k = registeredEndpoints s k"
  using assms by (auto simp: sync_def registeredEndpoints_snoc split: sum.splits)

lemma sync_failed: "fst (sync c key s) \<noteq> None \<Longrightarrow> snd (sync c key s) = s"
  by (auto simp: sync_def split: sum.splits if_splits)

lemma sync_same_key:
  assumes "\<forall>a. apiServiceLister_Get c k = Inr a \<longrightarrow> Name a = k" and "fst (sync c k s) = None"
  shows "k \<in> dom (registeredEndpoints (snd (sync c k s))) \<longleftrightarrow>
         (case apiServiceLister_Get c k of
            Inl err \<Rightarrow> False
          | Inr a \<Rightarrow> IsAPIServiceConditionTrue a Available)"
  using assms by (auto simp: sync_def registeredEndpoints_snoc split: sum.splits if_splits)

lemma sync_trace:
  "\<exists>hm. snd (sync c key s) = s @ hm
     \<and> (hm = [] \<and> fst (sync c key s) \<noteq> None
        \<or> hm = [RemoveAPIService key] \<and> fst (sync c key s) = None
        \<or> (\<exists>a. hm = [AddAPIService a (getDestinationHost c a)] \<and> fst (sync c key s) = None))"
  by (auto simp: sync_def split: sum.splits)

subsection \<open>Resolver: destination of a registration\<close>

text \<open>
  C3. The resolver returns the empty string for a registration without service
  reference. Otherwise the default destination is name, a dot, namespace and \<^verbatim>\<open>.svc\<close>;
  it is the result when the service lookup fails, whatever the error, and when the
  service found has a type other than cluster-internal, node-port and load-balancer;
  for these three types the result is the cluster-assigned address of the service.
\<close>

theorem getDestinationHost_cases:
  "(Spec_Service apiService = None \<longrightarrow> getDestinationHost c apiService = '''')
   \<and> (\<forall>ref. Spec_Service apiService = Some ref \<longrightarrow>
        (\<forall>err. serviceLister_Get c (ref_Namespace ref) (ref_Name ref) = Inl err \<longrightarrow>
           getDestinationHost c apiService = ref_Name ref @ ''.'' @ ref_Namespace ref @ ''.svc'')
        \<and> (\<forall>service. serviceLister_Get c (ref_Namespace ref) (ref_Name ref) = Inr service \<longrightarrow>
             (Spec_Type service \<in> {ServiceTypeClusterIP, ServiceTypeNodePort, ServiceTypeLoadBalancer}
                \<longrightarrow> getDestinationHost c apiService = Spec_ClusterIP service)
             \<and> (Spec_Type service \<notin> {ServiceTypeClusterIP, ServiceTypeNodePort, ServiceTypeLoadBalancer}
                \<longrightarrow> getDestinationHost c apiService
                      = ref_Name ref @ ''.'' @ ref_Namespace ref @ ''.svc'')))"
  by (auto simp: getDestinationHost_def)

text \<open>
  The concrete cases of the specification: a registration referring to service \<open>s\<close> in
  namespace \<open>n\<close>, with no such service, with a cluster-internal one at \<open>10.0.0.5\<close>,
  with one of an unrecognized type, with a failing service cache, and a registration
  without service reference.
\<close>

theorem getDestinationHost_cases_witness:
  "getDestinationHost (cacheOf [] [])
     \<lparr> Name = ''r'', Spec_Service = Some \<lparr> ref_Namespace = ''n'', ref_Name = ''s'' \<rparr>,
       Status_Available = True \<rparr> = ''s.n.svc''
   \<and> getDestinationHost
       (cacheOf [] [\<lparr> svc_Namespace = ''n'', svc_Name = ''s'',
                      Spec_Type = ServiceTypeClusterIP, Spec_ClusterIP = ''10.0.0.5'' \<rparr>])
       \<lparr> Name = ''r'', Spec_Service = Some \<lparr> ref_Namespace = ''n'', ref_Name = ''s'' \<rparr>,
         Status_Available = True \<rparr> = ''10.0.0.5''
   \<and> getDestinationHost
       (cacheOf [] [\<lparr> svc_Namespace = ''n'', svc_Name = ''s'',
                      Spec_Type = ServiceTypeOther ''ExternalName'', Spec_ClusterIP = ''10.0.0.5'' \<rparr>])
       \<lparr> Name = ''r'', Spec_Service = Some \<lparr> ref_Namespace = ''n'', ref_Name = ''s'' \<rparr>,
         Status_Available = True \<rparr> = ''s.n.svc''
   \<and> getDestinationHost failingCache
       \<lparr> Name = ''r'', Spec_Service = Some \<lparr> ref_Namespace = ''n'', ref_Name = ''s'' \<rparr>,
         Status_Available = True \<rparr> = ''s.n.svc''
   \<and> getDestinationHost (cacheOf [] [svcA]) R3 = []"
proof -
  let ?ref = "\<lparr> ref_Namespace = ''n'', ref_Name = ''s'' \<rparr>"
  let ?r = "\<lparr> Name = ''r'', Spec_Service = Some ?ref, Status_Available = True \<rparr>"
  let ?cip = "\<lparr> svc_Namespace = ''n'', svc_Name = ''s'',
                Spec_Type = ServiceTypeClusterIP, Spec_ClusterIP = ''10.0.0.5'' \<rparr>"
  let ?ext = "\<lparr> svc_Namespace = ''n'', svc_Name = ''s'',
                Spec_Type = ServiceTypeOther ''ExternalName'', Spec_ClusterIP = ''10.0.0.5'' \<rparr>"
  have ref: "Spec_Service ?r = Some ?ref" by simp
  have none: "serviceLister_Get (cacheOf [] []) (ref_Namespace ?ref) (ref_Name ?ref)
                = Inl NotFoundError"
    by (simp add: cacheOf_def)
  have fails: "serviceLister_Get failingCache (ref_Namespace ?ref) (ref_Name ?ref)
                = Inl (OtherError ''timeout'')"
    by (simp add: failingCache_def)
  have cip: "serviceLister_Get (cacheOf [] [?cip]) (ref_Namespace ?ref) (ref_Name ?ref) = Inr ?cip"
    by (simp add: cacheOf_def)
  have ext: "serviceLister_Get (cacheOf [] [?ext]) (ref_Namespace ?ref) (ref_Name ?ref) = Inr ?ext"
    by (simp add: cacheOf_def)
  have "getDestinationHost (cacheOf [] []) ?r = ''s.n.svc''"
    using getDestinationHost_cases [of ?r "cacheOf [] []"] ref none by simp
  moreover have "getDestinationHost (cacheOf [] [?cip]) ?r = ''10.0.0.5''"
    using getDestinationHost_cases [of ?r "cacheOf [] [?cip]"] ref cip by simp
  moreover have "getDestinationHost (cacheOf [] [?ext]) ?r = ''s.n.svc''"
    using getDestinationHost_cases [of ?r "cacheOf [] [?ext]"] ref ext by simp
  moreover have "getDestinationHost failingCache ?r = ''s.n.svc''"
    using getDestinationHost_cases [of ?r failingCache] ref fails by simp
  moreover have "getDestinationHost (cacheOf [] [svcA]) R3 = []"
    using getDestinationHost_cases [of R3 "cacheOf [] [svcA]"] by (simp add: R3_def)
  ultimately show ?thesis by simp
qed

subsection \<open>Sync engine: the decision taken from the current state\<close>

text \<open>
  C1. When the lookup of the key in the registration cache returns the not-found error,
  \<open>sync\<close> calls \<^verbatim>\<open>RemoveAPIService(key)\<close>, makes no other call and returns \<^verbatim>\<open>nil\<close>. This
  holds however often the key is synced in a row: for any number of consecutive syncs of
  the key, each against a cache in which the key is absent, every sync returns \<^verbatim>\<open>nil\<close> and
  the trace grows by one \<^verbatim>\<open>RemoveAPIService(key)\<close> per sync and by nothing else, so
  \<^verbatim>\<open>AddAPIService\<close> is never called.
\<close>

theorem sync_not_found_removes:
  assumes "\<forall>c \<in> set cs. \<exists>err. apiServiceLister_Get c key = Inl err \<and> IsNotFound err"
  shows "(\<forall>c \<in> set cs. sync c key s = (None, s @ [RemoveAPIService key]))
         \<and> syncs (map (\<lambda>c. (c, key)) cs) s
             = (replicate (length cs) None, s @ replicate (length cs) (RemoveAPIService key))"
proof -
  have one: "sync c key t = (None, t @ [RemoveAPIService key])" if "c \<in> set cs" for c t
    using assms that by (auto simp: sync_def)
  have "set ds \<subseteq> set cs \<Longrightarrow>
        syncs (map (\<lambda>c. (c, key)) ds) t
          = (replicate (length ds) None, t @ replicate (length ds) (RemoveAPIService key))"
    for ds t
  proof (induction ds arbitrary: t)
    case Nil
    show ?case by simp
  next
    case (Cons d ds)
    have "sync d key t = (None, t @ [RemoveAPIService key])"
      using Cons.prems by (intro one) simp
    moreover have "syncs (map (\<lambda>c. (c, key)) ds) (t @ [RemoveAPIService key])
          = (replicate (length ds) None,
             (t @ [RemoveAPIService key]) @ replicate (length ds) (RemoveAPIService key))"
      using Cons.prems by (intro Cons.IH) simp
    ultimately show ?case by (simp add: syncs_Cons)
  qed
  from this [of cs s] one show ?thesis by simp
qed

theorem sync_not_found_removes_witness:
  "apiServiceLister_Get (cacheOf [] []) ''R1'' = Inl NotFoundError
   \<and> apiServiceLister_Get (cacheOf [R2] [svcA]) ''R1'' = Inl NotFoundError
   \<and> IsNotFound NotFoundError
   \<and> sync (cacheOf [R2] [svcA]) ''R1'' [] = (None, [RemoveAPIService ''R1''])
   \<and> syncs [(cacheOf [] [], ''R1''), (cacheOf [R2] [svcA], ''R1''), (cacheOf [] [], ''R1'')] []
       = ([None, None, None],
          [RemoveAPIService ''R1'', RemoveAPIService ''R1'', RemoveAPIService ''R1''])"
proof -
  have g1: "apiServiceLister_Get (cacheOf [] []) ''R1'' = Inl NotFoundError"
    by (simp add: cacheOf_def)
  have g2: "apiServiceLister_Get (cacheOf [R2] [svcA]) ''R1'' = Inl NotFoundError"
    by (simp add: cacheOf_def R2_def)
  have h: "\<forall>c \<in> set [cacheOf [] [], cacheOf [R2] [svcA], cacheOf [] []].
             \<exists>err. apiServiceLister_Get c ''R1'' = Inl err \<and> IsNotFound err"
    using g1 g2 by simp
  from sync_not_found_removes [OF h, of "[]"] g1 g2 show ?thesis
    by (simp del: syncs.simps)
qed

text \<open>
  C2. When the registration is found in the cache and its Available condition is not
  true, \<open>sync\<close> calls \<^verbatim>\<open>RemoveAPIService(key)\<close>, makes no other call (so it never calls
  \<^verbatim>\<open>AddAPIService\<close>) and returns \<^verbatim>\<open>nil\<close>, whatever the service reference of the
  registration is, present or absent.
\<close>

theorem sync_unavailable_removes:
  assumes "apiServiceLister_Get c key = Inr apiService"
    and "\<not> IsAPIServiceConditionTrue apiService Available"
  shows "sync c key s = (None, s @ [RemoveAPIService key])"
  using assms by (simp add: sync_def)

theorem sync_unavailable_removes_witness:
  "apiServiceLister_Get (cacheOf [R1\<lparr>Status_Available := False\<rparr>] [svcA]) ''R1''
     = Inr (R1\<lparr>Status_Available := False\<rparr>)
   \<and> \<not> IsAPIServiceConditionTrue (R1\<lparr>Status_Available := False\<rparr>) Available
   \<and> Spec_Service (R1\<lparr>Status_Available := False\<rparr>) \<noteq> None
   \<and> sync (cacheOf [R1\<lparr>Status_Available := False\<rparr>] [svcA]) ''R1'' []
       = (None, [RemoveAPIService ''R1''])
   \<and> apiServiceLister_Get (cacheOf [R3\<lparr>Status_Available := False\<rparr>] [svcA]) ''R3''
       = Inr (R3\<lparr>Status_Available := False\<rparr>)
   \<and> \<not> IsAPIServiceConditionTrue (R3\<lparr>Status_Available := False\<rparr>) Available
   \<and> Spec_Service (R3\<lparr>Status_Available := False\<rparr>) = None
   \<and> sync (cacheOf [R3\<lparr>Status_Available := False\<rparr>] [svcA]) ''R3'' []
       = (None, [RemoveAPIService ''R3''])"
proof -
  have g1: "apiServiceLister_Get (cacheOf [R1\<lparr>Status_Available := False\<rparr>] [svcA]) ''R1''
              = Inr (R1\<lparr>Status_Available := False\<rparr>)"
    by (simp add: cacheOf_def R1_def)
  have a1: "\<not> IsAPIServiceConditionTrue (R1\<lparr>Status_Available := False\<rparr>) Available"
    by simp
  have g3: "apiServiceLister_Get (cacheOf [R3\<lparr>Status_Available := False\<rparr>] [svcA]) ''R3''
              = Inr (R3\<lparr>Status_Available := False\<rparr>)"
    by (simp add: cacheOf_def R3_def)
  have a3: "\<not> IsAPIServiceConditionTrue (R3\<lparr>Status_Available := False\<rparr>) Available"
    by simp
  from sync_unavailable_removes [OF g1 a1, of "[]"] sync_unavailable_removes [OF g3 a3, of "[]"]
    g1 a1 g3 a3
  show ?thesis by (simp add: R1_def R3_def)
qed

text \<open>
  C6. \<open>sync\<close> returns an error exactly when the lookup of the key in the registration
  cache fails with an error that is not the not-found error; the error returned is the
  one of the lookup, and then no call on the handler manager (or on anything else) has
  been made: the trace is the one \<open>sync\<close> started with, so the set of registered endpoints
  is unchanged.
\<close>

theorem sync_error_iff_lookup_error:
  "(fst (sync c key s) \<noteq> None
      \<longleftrightarrow> (\<exists>err. apiServiceLister_Get c key = Inl err \<and> \<not> IsNotFound err))
   \<and> (\<forall>err. fst (sync c key s) = Some err \<longrightarrow>
         apiServiceLister_Get c key = Inl err
         \<and> snd (sync c key s) = s
         \<and> registeredEndpoints (snd (sync c key s)) = registeredEndpoints s)"
  by (auto simp: sync_def split: sum.splits)

theorem sync_error_iff_lookup_error_witness:
  "apiServiceLister_Get failingCache ''R1'' = Inl (OtherError ''timeout'')
   \<and> \<not> IsNotFound (OtherError ''timeout'')
   \<and> sync failingCache ''R1'' [AddAPIService R1 ''1.2.3.4'']
       = (Some (OtherError ''timeout''), [AddAPIService R1 ''1.2.3.4''])
   \<and> fst (sync (cacheOf [] []) ''R1'' []) = None"
proof -
  let ?s = "[AddAPIService R1 ''1.2.3.4'']"
  have g: "apiServiceLister_Get failingCache ''R1'' = Inl (OtherError ''timeout'')"
    by (simp add: failingCache_def)
  have n: "\<not> IsNotFound (OtherError ''timeout'')" by simp
  have "fst (sync failingCache ''R1'' ?s) \<noteq> None"
    using sync_error_iff_lookup_error [of failingCache "''R1''" ?s] g n by blast
  then obtain e where e: "fst (sync failingCache ''R1'' ?s) = Some e"
    by blast
  with sync_error_iff_lookup_error [of failingCache "''R1''" ?s]
  have "apiServiceLister_Get failingCache ''R1'' = Inl e"
    and "snd (sync failingCache ''R1'' ?s) = ?s"
    by blast+
  with e g have "sync failingCache ''R1'' ?s = (Some (OtherError ''timeout''), ?s)"
    by (simp add: prod_eq_iff)
  moreover have "\<not> (\<exists>err. apiServiceLister_Get (cacheOf [] []) ''R1'' = Inl err \<and> \<not> IsNotFound err)"
    by (simp add: cacheOf_def)
  then have "fst (sync (cacheOf [] []) ''R1'' []) = None"
    using sync_error_iff_lookup_error [of "cacheOf [] []" "''R1''" "[]"] by blast
  ultimately show ?thesis using g n by simp
qed

text \<open>
  C10. When the registration is found, its Available condition is true and it has no
  service reference, \<open>sync\<close> calls \<^verbatim>\<open>AddAPIService\<close> with the registration and the empty
  string as destination host, makes no other call and returns \<^verbatim>\<open>nil\<close>: the registration
  is installed, with an empty destination, and not removed.
\<close>

theorem sync_available_without_service:
  assumes "apiServiceLister_Get c key = Inr apiService"
    and "IsAPIServiceConditionTrue apiService Available"
    and "Spec_Service apiService = None"
  shows "sync c key s = (None, s @ [AddAPIService apiService []])
         \<and> registeredEndpoints (snd (sync c key s)) (Name apiService) = Some []"
  using assms by (simp add: sync_def getDestinationHost_def registeredEndpoints_snoc)

theorem sync_available_without_service_witness:
  "apiServiceLister_Get (cacheOf [R3] [svcA]) ''R3'' = Inr R3
   \<and> IsAPIServiceConditionTrue R3 Available
   \<and> Spec_Service R3 = None
   \<and> sync (cacheOf [R3] [svcA]) ''R3'' [] = (None, [AddAPIService R3 []])
   \<and> registeredEndpoints (snd (sync (cacheOf [R3] [svcA]) ''R3'' [])) ''R3'' = Some []"
proof -
  have g: "apiServiceLister_Get (cacheOf [R3] [svcA]) ''R3'' = Inr R3"
    by (simp add: cacheOf_def R3_def)
  have a: "IsAPIServiceConditionTrue R3 Available" by (simp add: R3_def)
  have n: "Spec_Service R3 = None" by (simp add: R3_def)
  have nm: "Name R3 = ''R3''" by (simp add: R3_def)
  from sync_available_without_service [OF g a n, of "[]"] g a n nm show ?thesis by auto
qed

subsection \<open>The set of registered endpoints\<close>

text \<open>
  C5. Take any sequence of reconciliations, each run against the cache as it is at that
  moment, on caches that return under a key the registration of that name (the name of a
  registration is its queue key), and let the handler manager install or replace on
  \<^verbatim>\<open>AddAPIService\<close> and remove on \<^verbatim>\<open>RemoveAPIService\<close>. Afterwards a key is in the set of
  registered endpoints if and only if, at the last reconciliation of that key that
  returned no error, the registration was found in the cache and its Available condition
  was true. When no reconciliation of the key has succeeded the key is in the set exactly
  when it was there before; for a set that starts empty it is absent.
\<close>

theorem endpoints_after_syncs:
  assumes "\<forall>(c, key) \<in> set steps. \<forall>a. apiServiceLister_Get c key = Inr a \<longrightarrow> Name a = key"
  shows "k \<in> dom (registeredEndpoints (snd (syncs steps s))) \<longleftrightarrow>
         (case lastSuccessfulSync k steps s of
            None \<Rightarrow> k \<in> dom (registeredEndpoints s)
          | Some c \<Rightarrow>
              (case apiServiceLister_Get c k of
                 Inl err \<Rightarrow> False
               | Inr a \<Rightarrow> IsAPIServiceConditionTrue a Available))"
  using assms
proof (induction steps arbitrary: s)
  case Nil
  show ?case by (simp add: lastSuccessfulSync_Nil)
next
  case (Cons step rest)
  obtain c key where step: "step = (c, key)" by (cases step)
  let ?s' = "snd (sync c key s)"
  have wf: "\<forall>a. apiServiceLister_Get c key = Inr a \<longrightarrow> Name a = key"
    using Cons.prems by (simp add: step)
  have IH: "k \<in> dom (registeredEndpoints (snd (syncs rest ?s'))) \<longleftrightarrow>
         (case lastSuccessfulSync k rest ?s' of
            None \<Rightarrow> k \<in> dom (registeredEndpoints ?s')
          | Some c \<Rightarrow>
              (case apiServiceLister_Get c k of
                 Inl err \<Rightarrow> False
               | Inr a \<Rightarrow> IsAPIServiceConditionTrue a Available))"
    using Cons.prems by (intro Cons.IH) simp
  show ?case
  proof (cases "lastSuccessfulSync k rest ?s'")
    case (Some c')
    then show ?thesis
      using IH unfolding step syncs_Cons lastSuccessfulSync_Cons by simp
  next
    case None
    show ?thesis
    proof (cases "key = k \<and> fst (sync c key s) = None")
      case True
      then have key: "key = k" and ok: "fst (sync c k s) = None" by auto
      have "k \<in> dom (registeredEndpoints (snd (sync c k s))) \<longleftrightarrow>
            (case apiServiceLister_Get c k of
               Inl err \<Rightarrow> False
             | Inr a \<Rightarrow> IsAPIServiceConditionTrue a Available)"
        using wf ok unfolding key by (rule sync_same_key)
      then show ?thesis
        using IH None ok
        unfolding step syncs_Cons lastSuccessfulSync_Cons key by simp
    next
      case False
      have "registeredEndpoints ?s' k = registeredEndpoints s k"
      proof (cases "key = k")
        case True
        with False have "fst (sync c key s) \<noteq> None" by simp
        then show ?thesis by (simp add: sync_failed)
      next
        case False
        then show ?thesis using wf by (rule sync_other_key [rotated])
      qed
      then have "k \<in> dom (registeredEndpoints ?s') \<longleftrightarrow> k \<in> dom (registeredEndpoints s)"
        by (simp add: dom_def)
      then show ?thesis
        using IH None False
        unfolding step syncs_Cons lastSuccessfulSync_Cons by auto
    qed
  qed
qed


theorem endpoints_after_syncs_witness:
  "''R3'' \<in> dom (registeredEndpoints (snd (syncs
      [(cacheOf [R1, R3] [svcA], ''R1''), (cacheOf [R1, R3] [svcA], ''R3''),
       (cacheOf [R3] [svcA], ''R1''), (failingCache, ''R3'')] [])))
   \<and> ''R1'' \<notin> dom (registeredEndpoints (snd (syncs
      [(cacheOf [R1, R3] [svcA], ''R1''), (cacheOf [R1, R3] [svcA], ''R3''),
       (cacheOf [R3] [svcA], ''R1''), (failingCache, ''R3'')] [])))
   \<and> ''R2'' \<notin> dom (registeredEndpoints (snd (syncs
      [(cacheOf [R1, R3] [svcA], ''R1''), (cacheOf [R1, R3] [svcA], ''R3''),
       (cacheOf [R3] [svcA], ''R1''), (failingCache, ''R3'')] [])))
   \<and> fst (syncs
      [(cacheOf [R1, R3] [svcA], ''R1''), (cacheOf [R1, R3] [svcA], ''R3''),
       (cacheOf [R3] [svcA], ''R1''), (failingCache, ''R3'')] [])
      = [None, None, None, Some (OtherError ''timeout'')]"
proof -
  let ?steps = "[(cacheOf [R1, R3] [svcA], ''R1''), (cacheOf [R1, R3] [svcA], ''R3''),
                 (cacheOf [R3] [svcA], ''R1''), (failingCache, ''R3'')]"
  have wf: "\<forall>(c, key) \<in> set ?steps.
              \<forall>a. apiServiceLister_Get c key = Inr a \<longrightarrow> Name a = key"
    by (auto simp: cacheOf_def failingCache_def R1_def R3_def)
  have s1: "sync (cacheOf [R1, R3] [svcA]) ''R1'' t = (None, t @ [AddAPIService R1 ''1.2.3.4''])"
    for t
    by (simp add: sync_def getDestinationHost_def cacheOf_def R1_def svcA_def)
  have s2: "sync (cacheOf [R1, R3] [svcA]) ''R3'' t = (None, t @ [AddAPIService R3 []])" for t
    by (simp add: sync_def getDestinationHost_def cacheOf_def R1_def R3_def)
  have s3: "sync (cacheOf [R3] [svcA]) ''R1'' t = (None, t @ [RemoveAPIService ''R1''])" for t
    by (simp add: sync_def cacheOf_def R3_def)
  have s4: "sync failingCache ''R3'' t = (Some (OtherError ''timeout''), t)" for t
    by (simp add: sync_def failingCache_def)
  have run: "syncs ?steps []
               = ([None, None, None, Some (OtherError ''timeout'')],
                  [AddAPIService R1 ''1.2.3.4'', AddAPIService R3 [], RemoveAPIService ''R1''])"
    by (simp del: syncs.simps(2) add: syncs_Cons s1 s2 s3 s4)
  have l3: "lastSuccessfulSync ''R3'' ?steps [] = Some (cacheOf [R1, R3] [svcA])"
    unfolding lastSuccessfulSync_def run by simp
  have l1: "lastSuccessfulSync ''R1'' ?steps [] = Some (cacheOf [R3] [svcA])"
    unfolding lastSuccessfulSync_def run by simp
  have l2: "lastSuccessfulSync ''R2'' ?steps [] = None"
    unfolding lastSuccessfulSync_def run by simp
  have g3: "apiServiceLister_Get (cacheOf [R1, R3] [svcA]) ''R3'' = Inr R3"
    by (simp add: cacheOf_def R1_def R3_def)
  have a3: "IsAPIServiceConditionTrue R3 Available"
    by (simp add: R3_def)
  have g1: "apiServiceLister_Get (cacheOf [R3] [svcA]) ''R1'' = Inl NotFoundError"
    by (simp add: cacheOf_def R3_def)
  have e0: "''R2'' \<notin> dom (registeredEndpoints [])"
    by (simp add: registeredEndpoints_def)
  have "''R3'' \<in> dom (registeredEndpoints (snd (syncs ?steps [])))"
    using endpoints_after_syncs [OF wf, of "''R3''" "[]"] a3
    by (simp del: syncs.simps add: l3 g3)
  moreover have "''R1'' \<notin> dom (registeredEndpoints (snd (syncs ?steps [])))"
    using endpoints_after_syncs [OF wf, of "''R1''" "[]"]
    by (simp del: syncs.simps add: l1 g1)
  moreover have "''R2'' \<notin> dom (registeredEndpoints (snd (syncs ?steps [])))"
    using endpoints_after_syncs [OF wf, of "''R2''" "[]"] e0
    by (simp del: syncs.simps add: l2)
  moreover have "fst (syncs ?steps []) = [None, None, None, Some (OtherError ''timeout'')]"
    by (simp only: run fst_conv)
  ultimately show ?thesis by (simp del: syncs.simps)
qed

subsection \<open>Run loop: one item off the queue\<close>

text \<open>
  C7. For a key delivered by \<^verbatim>\<open>Get()\<close> (the queue is not shutting down),
  \<open>processNextWorkItem\<close> runs the sync function once, on the trace as it is after
  \<^verbatim>\<open>Get\<close>, and continues from the trace the sync function left. When the sync function
  returned \<^verbatim>\<open>nil\<close> it calls \<^verbatim>\<open>Forget(key)\<close> and never \<^verbatim>\<open>AddRateLimited\<close>; when it
  returned an error it reports the error, calls \<^verbatim>\<open>AddRateLimited(key)\<close> and never
  \<^verbatim>\<open>Forget\<close>. In both cases it then calls \<^verbatim>\<open>Done(key)\<close>, exactly once and as its last
  call, and returns true, so an error of the sync function does not end the loop. With the
  sync engine of this controller as sync function, the calls made in between are calls on
  the handler manager only, at most one.
\<close>

theorem processNextWorkItem_step:
  assumes "syncFn key (s @ [QueueGet]) = (err, s2)"
  shows "\<exists>new. processNextWorkItem syncFn (key, False) s = (True, s2 @ new)
           \<and> new = (case err of
                      None \<Rightarrow> [QueueForget key, QueueDone key]
                    | Some e \<Rightarrow>
                        [HandleError ''%v failed with : %v'' [ArgString key, ArgError e],
                         QueueAddRateLimited key, QueueDone key])
           \<and> count_list new (QueueDone key) = 1
           \<and> last new = QueueDone key
           \<and> (\<forall>k. QueueDone k \<in> set new \<longrightarrow> k = key)
           \<and> (err = None \<longrightarrow>
                count_list new (QueueForget key) = 1 \<and> (\<forall>k. QueueAddRateLimited k \<notin> set new))
           \<and> (err \<noteq> None \<longrightarrow>
                count_list new (QueueAddRateLimited key) = 1 \<and> (\<forall>k. QueueForget k \<notin> set new))
           \<and> (syncFn = sync c \<longrightarrow>
                (\<exists>hm. s2 = s @ [QueueGet] @ hm
                   \<and> (hm = [] \<and> err \<noteq> None
                      \<or> hm = [RemoveAPIService key] \<and> err = None
                      \<or> (\<exists>a. hm = [AddAPIService a (getDestinationHost c a)] \<and> err = None))))"
proof (cases err)
  case None
  have "processNextWorkItem syncFn (key, False) s = (True, s2 @ [QueueForget key, QueueDone key])"
    using assms None by (simp add: processNextWorkItem_def)
  moreover have "\<exists>hm. s2 = s @ [QueueGet] @ hm
                   \<and> (hm = [] \<and> err \<noteq> None
                      \<or> hm = [RemoveAPIService key] \<and> err = None
                      \<or> (\<exists>a. hm = [AddAPIService a (getDestinationHost c a)] \<and> err = None))"
    if "syncFn = sync c"
    using assms that sync_trace [of c key "s @ [QueueGet]"] by auto
  ultimately show ?thesis using None by auto
next
  case (Some e)
  have "processNextWorkItem syncFn (key, False) s
          = (True, s2 @ [HandleError ''%v failed with : %v'' [ArgString key, ArgError e],
                         QueueAddRateLimited key, QueueDone key])"
    using assms Some by (simp add: processNextWorkItem_def)
  moreover have "\<exists>hm. s2 = s @ [QueueGet] @ hm
                   \<and> (hm = [] \<and> err \<noteq> None
                      \<or> hm = [RemoveAPIService key] \<and> err = None
                      \<or> (\<exists>a. hm = [AddAPIService a (getDestinationHost c a)] \<and> err = None))"
    if "syncFn = sync c"
    using assms that sync_trace [of c key "s @ [QueueGet]"] by auto
  ultimately show ?thesis using Some by auto
qed

theorem processNextWorkItem_step_witness:
  "sync (cacheOf [R1] [svcA]) ''R1'' [QueueGet] = (None, [QueueGet, AddAPIService R1 ''1.2.3.4''])
   \<and> processNextWorkItem (sync (cacheOf [R1] [svcA])) (''R1'', False) []
       = (True, [QueueGet, AddAPIService R1 ''1.2.3.4'', QueueForget ''R1'', QueueDone ''R1''])
   \<and> sync failingCache ''R1'' [QueueGet] = (Some (OtherError ''timeout''), [QueueGet])
   \<and> processNextWorkItem (sync failingCache) (''R1'', False) []
       = (True, [QueueGet,
                 HandleError ''%v failed with : %v''
                   [ArgString ''R1'', ArgError (OtherError ''timeout'')],
                 QueueAddRateLimited ''R1'', QueueDone ''R1''])"
proof -
  have ok: "sync (cacheOf [R1] [svcA]) ''R1'' ([] @ [QueueGet])
              = (None, [QueueGet, AddAPIService R1 ''1.2.3.4''])"
    by (simp add: sync_def getDestinationHost_def cacheOf_def R1_def svcA_def)
  have bad: "sync failingCache ''R1'' ([] @ [QueueGet]) = (Some (OtherError ''timeout''), [QueueGet])"
    by (simp add: sync_def failingCache_def)
  from processNextWorkItem_step
         [where syncFn = "sync (cacheOf [R1] [svcA])" and key = "''R1''" and s = "[]", OF ok]
  have "processNextWorkItem (sync (cacheOf [R1] [svcA])) (''R1'', False) []
       = (True, [QueueGet, AddAPIService R1 ''1.2.3.4'', QueueForget ''R1'', QueueDone ''R1''])"
    by auto
  moreover from processNextWorkItem_step
         [where syncFn = "sync failingCache" and key = "''R1''" and s = "[]", OF bad]
  have "processNextWorkItem (sync failingCache) (''R1'', False) []
       = (True, [QueueGet,
                 HandleError ''%v failed with : %v''
                   [ArgString ''R1'', ArgError (OtherError ''timeout'')],
                 QueueAddRateLimited ''R1'', QueueDone ''R1''])"
    by auto
  ultimately show ?thesis using ok bad by simp
qed

subsection \<open>Event router\<close>

text \<open>
  C4. On a change event of a backing service (add, update, delete, or delete delivered
  as a tombstone of the service) the router enqueues exactly the listed registrations
  that refer to the service: the calls it makes are one \<^verbatim>\<open>Add\<close> of the key per listed
  registration whose service reference has the namespace and the name of the service, in
  list order, and nothing else. So every listed registration that refers to the service
  is enqueued, every key enqueued is the key of a listed registration that refers to it,
  a listed registration that does not refer to it (one that refers to another service,
  or one without service reference) is not enqueued, its name being its own in the list,
  and a registration without service reference refers to no service.
\<close>

theorem service_event_enqueues_referrers:
  assumes "ev = OnAdd (ObjService service) \<or> ev = OnUpdate (ObjService service) other
           \<or> ev = OnDelete (ObjService service)
           \<or> ev = OnDelete (DeletedFinalStateUnknown k (ObjService service))"
  shows "\<exists>es. serviceEvent c ev s = Some (s @ es)
           \<and> es = map (\<lambda>a. QueueAdd (Name a)) (getAPIServicesFor c service)
           \<and> getAPIServicesFor c service
               = filter (refersTo service) (fst (apiServiceLister_List c))
           \<and> (\<forall>a \<in> set (fst (apiServiceLister_List c)).
                 refersTo service a \<longrightarrow> QueueAdd (Name a) \<in> set es)
           \<and> (\<forall>e \<in> set es. \<exists>a \<in> set (fst (apiServiceLister_List c)).
                 refersTo service a \<and> e = QueueAdd (Name a))
           \<and> (\<forall>a \<in> set (fst (apiServiceLister_List c)).
                 \<not> refersTo service a \<longrightarrow>
                 (\<forall>b \<in> set (fst (apiServiceLister_List c)). Name b = Name a \<longrightarrow> b = a) \<longrightarrow>
                 QueueAdd (Name a) \<notin> set es)
           \<and> (\<forall>a. Spec_Service a = None \<longrightarrow> \<not> refersTo service a)
           \<and> (\<forall>a. refersTo service a \<longleftrightarrow>
                 (\<exists>ref. Spec_Service a = Some ref
                    \<and> ref_Namespace ref = svc_Namespace service
                    \<and> ref_Name ref = svc_Name service))"
proof -
  let ?L = "fst (apiServiceLister_List c)"
  let ?es = "map (\<lambda>a. QueueAdd (Name a)) (getAPIServicesFor c service)"
  have run: "serviceEvent c ev s = Some (s @ ?es)"
    using assms
    by (auto simp: addService_def updateService_def deleteService_def enqueue_each_eq)
  have sel: "getAPIServicesFor c service = filter (refersTo service) ?L"
    by (simp add: getAPIServicesFor_def getAPIServicesFor_loop_eq split: prod.splits)
  have all: "\<forall>a \<in> set ?L. refersTo service a \<longrightarrow> QueueAdd (Name a) \<in> set ?es"
    by (auto simp: sel)
  have only: "\<forall>e \<in> set ?es. \<exists>a \<in> set ?L. refersTo service a \<and> e = QueueAdd (Name a)"
    by (auto simp: sel)
  have others: "\<forall>a \<in> set ?L. \<not> refersTo service a \<longrightarrow>
                  (\<forall>b \<in> set ?L. Name b = Name a \<longrightarrow> b = a) \<longrightarrow> QueueAdd (Name a) \<notin> set ?es"
    by (auto simp: sel)
  have noref: "\<forall>a. Spec_Service a = None \<longrightarrow> \<not> refersTo service a"
    by (simp add: refersTo_def)
  have words: "\<forall>a. refersTo service a \<longleftrightarrow>
                 (\<exists>ref. Spec_Service a = Some ref
                    \<and> ref_Namespace ref = svc_Namespace service
                    \<and> ref_Name ref = svc_Name service)"
    by (auto simp: refersTo_def split: option.splits)
  from run sel all only others noref words show ?thesis
    by - (intro exI [of _ ?es] conjI; (assumption | rule refl))
qed

theorem service_event_enqueues_referrers_witness:
  "serviceEvent (cacheOf [R1, R2, R3] []) (OnAdd (ObjService svcA)) [] = Some [QueueAdd ''R1'']
   \<and> serviceEvent (cacheOf [R1, R2, R3, R1\<lparr>Name := ''R4''\<rparr>] [])
       (OnDelete (DeletedFinalStateUnknown ''ns1/svcA'' (ObjService svcA))) [QueueAdd ''R2'']
       = Some [QueueAdd ''R2'', QueueAdd ''R1'', QueueAdd ''R4'']"
proof -
  have sel1: "filter (refersTo svcA) (fst (apiServiceLister_List (cacheOf [R1, R2, R3] []))) = [R1]"
    by (simp add: refersTo_def cacheOf_def R1_def R2_def R3_def svcA_def)
  have sel2: "filter (refersTo svcA)
                (fst (apiServiceLister_List (cacheOf [R1, R2, R3, R1\<lparr>Name := ''R4''\<rparr>] [])))
              = [R1, R1\<lparr>Name := ''R4''\<rparr>]"
    by (simp add: refersTo_def cacheOf_def R1_def R2_def R3_def svcA_def)
  have n1: "Name R1 = ''R1''" by (simp add: R1_def)
  have e1: "OnAdd (ObjService svcA) = OnAdd (ObjService svcA) \<or>
            OnAdd (ObjService svcA) = OnUpdate (ObjService svcA) (ObjService svcA) \<or>
            OnAdd (ObjService svcA) = OnDelete (ObjService svcA) \<or>
            OnAdd (ObjService svcA) = OnDelete (DeletedFinalStateUnknown ''ns1/svcA'' (ObjService svcA))"
    by simp
  have e2: "OnDelete (DeletedFinalStateUnknown ''ns1/svcA'' (ObjService svcA)) = OnAdd (ObjService svcA) \<or>
            OnDelete (DeletedFinalStateUnknown ''ns1/svcA'' (ObjService svcA))
              = OnUpdate (ObjService svcA) (ObjService svcA) \<or>
            OnDelete (DeletedFinalStateUnknown ''ns1/svcA'' (ObjService svcA)) = OnDelete (ObjService svcA) \<or>
            OnDelete (DeletedFinalStateUnknown ''ns1/svcA'' (ObjService svcA))
              = OnDelete (DeletedFinalStateUnknown ''ns1/svcA'' (ObjService svcA))"
    by simp
  from service_event_enqueues_referrers [OF e1, of "cacheOf [R1, R2, R3] []" "[]"]
  have "serviceEvent (cacheOf [R1, R2, R3] []) (OnAdd (ObjService svcA)) []
          = Some ([] @ map (\<lambda>a. QueueAdd (Name a))
                        (filter (refersTo svcA)
                           (fst (apiServiceLister_List (cacheOf [R1, R2, R3] [])))))"
    by (elim exE conjE) (simp only:)
  then have "serviceEvent (cacheOf [R1, R2, R3] []) (OnAdd (ObjService svcA)) []
               = Some [QueueAdd ''R1'']"
    by (simp only: sel1 n1 list.map append_Nil)
  moreover
  from service_event_enqueues_referrers
         [OF e2, of "cacheOf [R1, R2, R3, R1\<lparr>Name := ''R4''\<rparr>] []" "[QueueAdd ''R2'']"]
  have "serviceEvent (cacheOf [R1, R2, R3, R1\<lparr>Name := ''R4''\<rparr>] [])
          (OnDelete (DeletedFinalStateUnknown ''ns1/svcA'' (ObjService svcA))) [QueueAdd ''R2'']
          = Some ([QueueAdd ''R2''] @ map (\<lambda>a. QueueAdd (Name a))
                        (filter (refersTo svcA)
                           (fst (apiServiceLister_List
                                   (cacheOf [R1, R2, R3, R1\<lparr>Name := ''R4''\<rparr>] [])))))"
    by (elim exE conjE) (simp only:)
  then have "serviceEvent (cacheOf [R1, R2, R3, R1\<lparr>Name := ''R4''\<rparr>] [])
       (OnDelete (DeletedFinalStateUnknown ''ns1/svcA'' (ObjService svcA))) [QueueAdd ''R2'']
       = Some [QueueAdd ''R2'', QueueAdd ''R1'', QueueAdd ''R4'']"
    by (simp add: sel2 n1)
  ultimately show ?thesis by simp
qed

text \<open>
  C8. A delete notification of a registration whose payload is neither a registration
  nor a tombstone holding a registration makes the router log the payload as an error
  and return: the one effect is the log entry, no key is enqueued. The same holds for a
  delete notification of a backing service whose payload is neither a service nor a
  tombstone holding a service. A tombstone holding an object of the expected type is
  unwrapped: the router does what it does for the object itself, that is, it enqueues
  the key of the registration, or the keys of the registrations that refer to the
  service.
\<close>

theorem delete_notification_unwrapped_or_dropped:
  "((\<forall>a. obj \<noteq> ObjAPIService a) \<and> (\<forall>k a. obj \<noteq> DeletedFinalStateUnknown k (ObjAPIService a))
      \<longrightarrow> (\<exists>fmt. deleteAPIService obj s = s @ [GlogErrorf fmt [ArgObj obj]]))
   \<and> ((\<forall>v. obj \<noteq> ObjService v) \<and> (\<forall>k v. obj \<noteq> DeletedFinalStateUnknown k (ObjService v))
      \<longrightarrow> (\<exists>fmt. deleteService c obj s = s @ [GlogErrorf fmt [ArgObj obj]]))
   \<and> deleteAPIService (DeletedFinalStateUnknown k (ObjAPIService apiService)) s
       = deleteAPIService (ObjAPIService apiService) s
   \<and> deleteAPIService (ObjAPIService apiService) s
       = s @ [GlogV4Infof ''Deleting %q'' [ArgString (Name apiService)],
              QueueAdd (Name apiService)]
   \<and> deleteService c (DeletedFinalStateUnknown k (ObjService service)) s
       = deleteService c (ObjService service) s
   \<and> deleteService c (ObjService service) s
       = s @ map (\<lambda>a. QueueAdd (Name a)) (getAPIServicesFor c service)"
proof -
  have reg: "(\<forall>a. obj \<noteq> ObjAPIService a) \<and> (\<forall>k a. obj \<noteq> DeletedFinalStateUnknown k (ObjAPIService a))
               \<longrightarrow> (\<exists>fmt. deleteAPIService obj s = s @ [GlogErrorf fmt [ArgObj obj]])"
  proof (cases obj)
    case (DeletedFinalStateUnknown k' inner)
    then show ?thesis
      by (cases inner) (simp_all add: deleteAPIService_def)
  qed (simp_all add: deleteAPIService_def)
  have svc: "(\<forall>v. obj \<noteq> ObjService v) \<and> (\<forall>k v. obj \<noteq> DeletedFinalStateUnknown k (ObjService v))
               \<longrightarrow> (\<exists>fmt. deleteService c obj s = s @ [GlogErrorf fmt [ArgObj obj]])"
  proof (cases obj)
    case (DeletedFinalStateUnknown k' inner)
    then show ?thesis
      by (cases inner) (simp_all add: deleteService_def)
  qed (simp_all add: deleteService_def)
  have unwrap: "deleteAPIService (DeletedFinalStateUnknown k (ObjAPIService apiService)) s
                  = deleteAPIService (ObjAPIService apiService) s"
    by (simp add: deleteAPIService_def)
  have live: "deleteAPIService (ObjAPIService apiService) s
                = s @ [GlogV4Infof ''Deleting %q'' [ArgString (Name apiService)],
                       QueueAdd (Name apiService)]"
    by (simp add: deleteAPIService_def enqueue_def DeletionHandlingMetaNamespaceKeyFunc_def)
  have unwrap': "deleteService c (DeletedFinalStateUnknown k (ObjService service)) s
                   = deleteService c (ObjService service) s"
    by (simp add: deleteService_def)
  have live': "deleteService c (ObjService service) s
                 = s @ map (\<lambda>a. QueueAdd (Name a)) (getAPIServicesFor c service)"
    by (simp add: deleteService_def enqueue_each_eq)
  from reg svc unwrap live unwrap' live' show ?thesis
    by - (intro conjI; assumption)
qed

theorem delete_notification_unwrapped_or_dropped_witness:
  "deleteAPIService (DeletedFinalStateUnknown ''ns1/svcA'' (ObjService svcA)) [QueueAdd ''R2'']
     = [QueueAdd ''R2'',
        GlogErrorf ''Tombstone contained object that is not expected %#v''
          [ArgObj (DeletedFinalStateUnknown ''ns1/svcA'' (ObjService svcA))]]
   \<and> deleteService (cacheOf [R1] []) (ObjOther ''string'') []
     = [GlogErrorf ''Couldn't get object from tombstone %#v'' [ArgObj (ObjOther ''string'')]]
   \<and> deleteAPIService (DeletedFinalStateUnknown ''R1'' (ObjAPIService R1)) []
     = [GlogV4Infof ''Deleting %q'' [ArgString ''R1''], QueueAdd ''R1'']
   \<and> deleteService (cacheOf [R1] []) (DeletedFinalStateUnknown ''ns1/svcA'' (ObjService svcA)) []
     = [QueueAdd ''R1'']"
proof -
  let ?t = "DeletedFinalStateUnknown ''ns1/svcA'' (ObjService svcA)"
  have h1: "(\<forall>a. ?t \<noteq> ObjAPIService a) \<and> (\<forall>k a. ?t \<noteq> DeletedFinalStateUnknown k (ObjAPIService a))"
    by simp
  have h2: "(\<forall>v. ObjOther ''string'' \<noteq> ObjService v)
            \<and> (\<forall>k v. ObjOther ''string'' \<noteq> DeletedFinalStateUnknown k (ObjService v))"
    by simp
  have n1: "Name R1 = ''R1''" by (simp add: R1_def)
  have sel: "getAPIServicesFor (cacheOf [R1] []) svcA = [R1]"
    by (simp add: getAPIServicesFor_def cacheOf_def R1_def svcA_def)
  have "\<exists>fmt. deleteAPIService ?t [QueueAdd ''R2''] = [QueueAdd ''R2''] @ [GlogErrorf fmt [ArgObj ?t]]"
    using delete_notification_unwrapped_or_dropped [of ?t "[QueueAdd ''R2'']", THEN conjunct1] h1
    by (rule mp)
  then have "deleteAPIService ?t [QueueAdd ''R2'']
     = [QueueAdd ''R2'',
        GlogErrorf ''Tombstone contained object that is not expected %#v'' [ArgObj ?t]]"
    by (simp add: deleteAPIService_def)
  moreover
  have "\<exists>fmt. deleteService (cacheOf [R1] []) (ObjOther ''string'') []
                 = [] @ [GlogErrorf fmt [ArgObj (ObjOther ''string'')]]"
    using delete_notification_unwrapped_or_dropped
            [of "ObjOther ''string''" "[]" "cacheOf [R1] []", THEN conjunct2, THEN conjunct1] h2
    by (rule mp)
  then have "deleteService (cacheOf [R1] []) (ObjOther ''string'') []
     = [GlogErrorf ''Couldn't get object from tombstone %#v'' [ArgObj (ObjOther ''string'')]]"
    by (simp add: deleteService_def)
  moreover
  have "deleteAPIService (DeletedFinalStateUnknown ''R1'' (ObjAPIService R1)) []
     = [GlogV4Infof ''Deleting %q'' [ArgString ''R1''], QueueAdd ''R1'']"
    using delete_notification_unwrapped_or_dropped
         [of ?t "[]" "cacheOf [R1] []" "''R1''" R1 svcA,
          THEN conjunct2, THEN conjunct2]
    by (simp add: n1)
  moreover
  have "deleteService (cacheOf [R1] []) ?t [] = [QueueAdd ''R1'']"
    using delete_notification_unwrapped_or_dropped
         [of ?t "[]" "cacheOf [R1] []" "''ns1/svcA''" R1 svcA,
          THEN conjunct2, THEN conjunct2, THEN conjunct2, THEN conjunct2]
    by (simp add: sel n1)
  ultimately show ?thesis by simp
qed

end
